theory Spec2Isabelle
  imports Complex_Main "HOL-Library.Log_Nat"
begin

section \<open>The frame-rate upconverter (interpolate\_video.py)\<close>

text \<open>Frames are opaque values of a type \<open>'f\<close>.\<close>

text \<open>The exceptions of the two scripts and of the libraries under them.\<close>

datatype py_error =
  FileNotFoundError | TypeError | RuntimeError | ZeroDivisionError | IndexError
  | OverflowError | ValueError | OSError | RequestException | BadZipFile | ZlibError

subsection \<open>Python floats\<close>

text \<open>
  A Python float is an IEEE binary64 value: a finite double, given by its exact value, an
  infinity or a NaN. The two zeros are one value here: the script never looks at the sign
  of a zero. The frame rates reach \<open>main\<close> as floats (\<open>argparse\<close> with \<open>type=float\<close>, which
  also accepts \<open>inf\<close> and \<open>nan\<close>, and \<open>cap.get\<close>).
\<close>

datatype pyfloat = Finite rat | PosInf | NegInf | NaN

text \<open>Python's \<open>round\<close> on a float: to the nearest integer, a tie to the even one.\<close>

definition py_round :: "rat \<Rightarrow> int" where
  "py_round x =
     (let f = \<lfloor>x\<rfloor>; d = x - of_int f
      in if d < 1 / 2 then f
         else if 1 / 2 < d then f + 1
         else if even f then f else f + 1)"

text \<open>
  The exponent \<open>e\<close> with \<open>2^e \<le> |q| < 2^(e+1)\<close>, for \<open>q\<close> other than 0, from the lengths
  in bits of the numerator and the denominator.
\<close>

definition binade :: "rat \<Rightarrow> int" where
  "binade q =
     (let a = \<bar>q\<bar>; k = bitlen (fst (quotient_of a)) - bitlen (snd (quotient_of a))
      in if power_int 2 k \<le> a then k else k - 1)"

text \<open>
  The double nearest to an exact value, a tie to the even significand: doubles with the
  exponent \<open>e\<close> are the multiples of \<open>2^(e - 52)\<close>, below \<open>2^(-1022)\<close> (the subnormal
  range) the multiples of \<open>2^(-1074)\<close>; a result of magnitude \<open>2^1024\<close> is an infinity.
\<close>

definition round_double :: "rat \<Rightarrow> pyfloat" where
  "round_double q =
     (if q = 0 then Finite 0
      else
        (let e = max (binade q) (- 1022);
             ulp = power_int 2 (e - 52);
             r = of_int (py_round (q / ulp)) * ulp
         in if power_int 2 1024 \<le> \<bar>r\<bar> then (if 0 < q then PosInf else NegInf)
            else Finite r))"

text \<open>
  The division of two Python floats: a zero divisor raises, whatever the dividend; the
  rest is the IEEE division, the exact quotient rounded to the nearest double.
\<close>

definition float_div :: "pyfloat \<Rightarrow> pyfloat \<Rightarrow> py_error + pyfloat" where
  "float_div a b =
     (case b of
        Finite y \<Rightarrow>
          if y = 0 then Inl ZeroDivisionError
          else
            (case a of
               Finite x \<Rightarrow> Inr (round_double (x / y))
             | PosInf \<Rightarrow> Inr (if 0 < y then PosInf else NegInf)
             | NegInf \<Rightarrow> Inr (if 0 < y then NegInf else PosInf)
             | NaN \<Rightarrow> Inr NaN)
      | NaN \<Rightarrow> Inr NaN
      | _ \<Rightarrow> (case a of Finite x \<Rightarrow> Inr (Finite 0) | _ \<Rightarrow> Inr NaN))"

text \<open>The comparison \<open>x <= 1\<close> on a float: false on a NaN.\<close>

definition le_one :: "pyfloat \<Rightarrow> bool" where
  "le_one x = (case x of Finite r \<Rightarrow> r \<le> 1 | NegInf \<Rightarrow> True | PosInf \<Rightarrow> False | NaN \<Rightarrow> False)"

subsection \<open>Checkpoints and \<open>load_model\<close>\<close>

text \<open>
  What \<open>torch.load\<close> returns: a tensor, or a dict from names to such objects. A dict is
  an association list in insertion order, read with \<open>map_of\<close>.
\<close>

datatype 'v pyobj = Tensor 'v | Dict "(string \<times> 'v pyobj) list"

type_synonym 'v params = "(string \<times> 'v) list"

definition contains_key :: "(string \<times> 'a) list \<Rightarrow> string \<Rightarrow> bool" where
  "contains_key d k = (map_of d k \<noteq> None)"

text \<open>
  Modelled from the spec: the method \<open>load_state_dict\<close> of the class
  \<open>models.IFRNet.Model\<close>, which is not under src/ (the class inherits it from the
  tensor library). The spec's words: loading non-strictly, unknown or missing parameter
  names are tolerated, not fatal. The model's parameters are a list of named values;
  a name of the model found in the state dict takes the value stored there, a name of
  the model absent from the state dict keeps its value, a name of the state dict that
  the model does not have is dropped. Strict loading fails on a missing or an unknown
  name. An argument that is no dict, or an entry for a name of the model that is no
  tensor, fails in both modes.
\<close>

definition load_param :: "(string \<times> 'v pyobj) list \<Rightarrow> string \<times> 'v \<Rightarrow> string \<times> 'v" where
  "load_param d p =
     (case map_of d (fst p) of
        Some (Tensor w) \<Rightarrow> (fst p, w)
      | _ \<Rightarrow> p)"

definition load_state_dict :: "'v params \<Rightarrow> 'v pyobj \<Rightarrow> bool \<Rightarrow> py_error + 'v params" where
  "load_state_dict model state_dict strict =
     (case state_dict of
        Tensor _ \<Rightarrow> Inl TypeError
      | Dict d \<Rightarrow>
          if list_ex (\<lambda>p. case map_of d (fst p) of Some (Dict _) \<Rightarrow> True | _ \<Rightarrow> False) model
          then Inl RuntimeError
          else if strict \<and> (list_ex (\<lambda>p. \<not> contains_key d (fst p)) model
                            \<or> list_ex (\<lambda>e. \<not> contains_key model (fst e)) d)
          then Inl RuntimeError
          else Inr (map (load_param d) model))"

text \<open>
  \<open>load_model\<close>, lines 25-35. \<open>fresh\<close> is the freshly constructed \<open>IFRNet()\<close>;
  \<open>file\<close> is what \<open>torch.load(model_path)\<close> finds, \<open>None\<close> when the file cannot be
  read. The test \<open>"state_dict" in checkpoint\<close> is a key test on a dict; on a tensor the
  library raises.
\<close>

definition load_model :: "'v params \<Rightarrow> 'v pyobj option \<Rightarrow> py_error + 'v params" where
  "load_model fresh file =
     (case file of
        None \<Rightarrow> Inl FileNotFoundError
      | Some checkpoint \<Rightarrow>
          (case checkpoint of
             Tensor _ \<Rightarrow> Inl RuntimeError
           | Dict d \<Rightarrow>
               (case map_of d ''state_dict'' of
                  Some inner \<Rightarrow> load_state_dict fresh inner False
                | None \<Rightarrow> load_state_dict fresh checkpoint False)))"

text \<open>
  The two storage forms of a checkpoint. The flat form of a state dict maps each
  parameter name to its tensor; the wrapped form is any dict that holds the flat form
  under the key \<open>state_dict\<close>.
\<close>

definition flat_checkpoint :: "'v params \<Rightarrow> 'v pyobj" where
  "flat_checkpoint sd = Dict (map (\<lambda>(k, v). (k, Tensor v)) sd)"

subsection \<open>The video, the writer and the run\<close>

text \<open>\<open>cv2.VideoCapture\<close> after opening: whether it opened, its properties, its frames.\<close>

record 'f capture =
  isOpened :: bool
  cap_fps :: pyfloat
  cap_width :: nat
  cap_height :: nat
  cap_frames :: "'f list"

text \<open>
  What a run of \<open>main\<close> leaves behind: the parameters of the \<open>cv2.VideoWriter\<close> once it
  is created (frame rate, width, height), the frames written to it in order, the calls of
  \<open>interpolate_frame\<close> in order (first frame, second frame, time position), and the
  exception that ended the run, if any.
\<close>

record 'f run =
  writer :: "(pyfloat \<times> nat \<times> nat) option"
  written :: "'f list"
  calls :: "('f \<times> 'f \<times> rat) list"
  raised :: "py_error option"

definition no_run :: "py_error \<Rightarrow> 'f run" where
  "no_run e = \<lparr>writer = None, written = [], calls = [], raised = Some e\<rparr>"

text \<open>
  Lines 68-71: the quotient of the two rates, replaced by 1 when it is at most 1. The
  integer 1 that line 71 assigns rounds like the float 1.
\<close>

definition factor :: "pyfloat \<Rightarrow> pyfloat \<Rightarrow> py_error + pyfloat" where
  "factor target_fps fps =
     (case float_div target_fps fps of
        Inl e \<Rightarrow> Inl e
      | Inr f \<Rightarrow> Inr (if le_one f then Finite 1 else f))"

text \<open>
  Line 88, \<open>int(round(factor)) - 1\<close>: \<open>round\<close> raises \<open>OverflowError\<close> on an infinity and
  \<open>ValueError\<close> on a NaN.
\<close>

definition interp_count :: "pyfloat \<Rightarrow> py_error + int" where
  "interp_count f =
     (case f of
        Finite r \<Rightarrow> Inr (py_round r - 1)
      | PosInf \<Rightarrow> Inl OverflowError
      | NegInf \<Rightarrow> Inl OverflowError
      | NaN \<Rightarrow> Inl ValueError)"

text \<open>
  \<open>interpolate_frame\<close>, lines 38-45: the conversion of the two frames to tensors, the
  inference of the model and the conversion back are floating-point work of the tensor
  library; the parameter \<open>inference\<close> stands for all of it, a function of the loaded
  model, the two frames and the time position.
\<close>

definition interpolate_frame ::
  "('m \<Rightarrow> 'f \<Rightarrow> 'f \<Rightarrow> rat \<Rightarrow> 'f) \<Rightarrow> 'm \<Rightarrow> 'f \<Rightarrow> 'f \<Rightarrow> rat \<Rightarrow> 'f" where
  "interpolate_frame inference model img0 img1 t = inference model img0 img1 t"

text \<open>Lines 93-96: one pass of the inner loop, for one \<open>k\<close>.\<close>

definition inner_step ::
  "('m \<Rightarrow> 'f \<Rightarrow> 'f \<Rightarrow> rat \<Rightarrow> 'f) \<Rightarrow> 'm \<Rightarrow> int \<Rightarrow> 'f \<Rightarrow> 'f \<Rightarrow> 'f run \<Rightarrow> int \<Rightarrow> 'f run" where
  "inner_step inference model n f0 f1 s k =
     (let t = of_int k / of_int (n + 1);
          mid = interpolate_frame inference model f0 f1 t
      in s\<lparr>written := written s @ [mid], calls := calls s @ [(f0, f1, t)]\<rparr>)"

text \<open>Lines 91-96: one pass of the outer loop, for one \<open>i\<close>; \<open>range(1, n + 1)\<close> is \<open>[1..n]\<close>.\<close>

definition pair_step ::
  "('m \<Rightarrow> 'f \<Rightarrow> 'f \<Rightarrow> rat \<Rightarrow> 'f) \<Rightarrow> 'm \<Rightarrow> int \<Rightarrow> 'f list \<Rightarrow> 'f run \<Rightarrow> nat \<Rightarrow> 'f run" where
  "pair_step inference model n frames s i =
     (let f0 = frames ! i; f1 = frames ! (i + 1);
          s1 = s\<lparr>written := written s @ [f0]\<rparr>
      in foldl (inner_step inference model n f0 f1) s1 [1..n])"

text \<open>
  Lines 90-97: the loop over \<open>range(len(frames) - 1)\<close>, then the write of \<open>frames[-1]\<close>,
  which raises on an empty list. The indices \<open>i\<close> and \<open>i + 1\<close> of the loop are within the
  list.
\<close>

definition synthesize ::
  "('m \<Rightarrow> 'f \<Rightarrow> 'f \<Rightarrow> rat \<Rightarrow> 'f) \<Rightarrow> 'm \<Rightarrow> int \<Rightarrow> 'f list \<Rightarrow> 'f run \<Rightarrow> 'f run" where
  "synthesize inference model n frames s =
     (let s1 = foldl (pair_step inference model n frames) s [0..<length frames - 1]
      in if frames = [] then s1\<lparr>raised := Some IndexError\<rparr>
         else s1\<lparr>written := written s1 @ [last frames]\<rparr>)"

text \<open>
  \<open>main\<close>, lines 48-100. The arguments: the inference capability, the fresh model, what
  the checkpoint path holds, the opened capture and \<open>--target_fps\<close>. The writer is
  created at line 80, before line 88 computes the count; \<open>written\<close> lists the frames
  passed to \<open>out.write\<close>.
\<close>

definition main ::
  "('v params \<Rightarrow> 'f \<Rightarrow> 'f \<Rightarrow> rat \<Rightarrow> 'f) \<Rightarrow> 'v params \<Rightarrow> 'v pyobj option \<Rightarrow> 'f capture
     \<Rightarrow> pyfloat \<Rightarrow> 'f run" where
  "main inference fresh file cap target_fps =
     (case load_model fresh file of
        Inl e \<Rightarrow> no_run e
      | Inr model \<Rightarrow>
          if \<not> isOpened cap then no_run RuntimeError
          else
            (case factor target_fps (cap_fps cap) of
               Inl e \<Rightarrow> no_run e
             | Inr f \<Rightarrow>
                 (let frames = cap_frames cap;
                      out = \<lparr>writer = Some (target_fps, cap_width cap, cap_height cap),
                             written = [], calls = [], raised = None\<rparr>
                  in case interp_count f of
                       Inl e \<Rightarrow> out\<lparr>raised := Some e\<rparr>
                     | Inr n \<Rightarrow> synthesize inference model n frames out)))"

subsection \<open>The schedule in closed form\<close>

text \<open>
  The spec's schedule, following its words: for \<open>k = 1..n\<close> the time position
  \<open>k / (n + 1)\<close>, in ascending \<open>k\<close>; for the pair \<open>i\<close> the frame \<open>i\<close> followed by one
  synthetic frame per time position.
\<close>

definition time_positions :: "int \<Rightarrow> rat list" where
  "time_positions n = map (\<lambda>k. of_int k / of_int (n + 1)) [1..n]"

definition pair_frames ::
  "('m \<Rightarrow> 'f \<Rightarrow> 'f \<Rightarrow> rat \<Rightarrow> 'f) \<Rightarrow> 'm \<Rightarrow> int \<Rightarrow> 'f list \<Rightarrow> nat \<Rightarrow> 'f list" where
  "pair_frames I m n frames i =
     frames ! i # map (I m (frames ! i) (frames ! (i + 1))) (time_positions n)"

definition pair_calls :: "int \<Rightarrow> 'f list \<Rightarrow> nat \<Rightarrow> ('f \<times> 'f \<times> rat) list" where
  "pair_calls n frames i = map (\<lambda>t. (frames ! i, frames ! (i + 1), t)) (time_positions n)"

subsection \<open>Concrete inputs\<close>

text \<open>
  A stand-in for the inference: frames of one pixel, blended linearly. A clip that opened.
  A fresh model with two parameters, and a stored state dict that lacks one of them and
  has a name the model does not know; the checkpoint \<open>weights\<close> holds it in the flat form.
\<close>

definition stored :: "rat params" where
  "stored = [(''encoder.weight'', 7), (''extra.weight'', 3)]"

definition blend :: "'m \<Rightarrow> rat \<Rightarrow> rat \<Rightarrow> rat \<Rightarrow> rat" where
  "blend m a b t = a + (b - a) * t"

definition clip :: "pyfloat \<Rightarrow> rat list \<Rightarrow> rat capture" where
  "clip r fs = \<lparr>isOpened = True, cap_fps = r, cap_width = 4, cap_height = 2, cap_frames = fs\<rparr>"

text \<open>
  The doubles nearest to 23.98, 35.97 and 59.95, and to \<open>1e308\<close>, by their exact values.
\<close>

definition d23_98 :: rat where
  "d23_98 = 6749769941521531 / 281474976710656"

definition d35_97 :: rat where
  "d35_97 = 1265581864035287 / 35184372088832"

definition d59_95 :: rat where
  "d59_95 = 4218606213450957 / 70368744177664"

definition d1e308 :: rat where
  "d1e308 = 100000000000000001097906362944045541740492309677311846336810682903157585404911491537163328978494688899061249669721172515611590283743140088328307009198146046031271664502933027185697489699588559043338384466165001178426897626212945177628091195786707458122783970171784415105291802893207873272974885715430223118336"

text \<open>The state of a run at line 90: the writer is there, nothing is written yet.\<close>

definition start :: "rat run" where
  "start = \<lparr>writer = Some (Finite 90, 4, 2), written = [], calls = [], raised = None\<rparr>"

definition weights :: "rat pyobj" where
  "weights = flat_checkpoint stored"

definition fresh_model :: "rat params" where
  "fresh_model = [(''encoder.weight'', 0), (''decoder.bias'', 1)]"

section \<open>The checkpoint fetcher (download\_checkpoints.py)\<close>

text \<open>
  A path is the list of its components, file contents are lists of bytes. The file
  system of the model holds regular files only: directories are not tracked, and
  creating one fails only where a regular file is in the way. What the script prints is
  not modelled.
\<close>

type_synonym path = "string list"

type_synonym bytes = "char list"

text \<open>
  The answer to \<open>requests.get(url, stream=True)\<close>: the status code, the headers, the
  chunks that \<open>iter_content\<close> yields in order, and whether the stream breaks after them
  (a transport error in the middle of the body).
\<close>

record response =
  status_code :: nat
  headers :: "string \<rightharpoonup> string"
  body :: "bytes list"
  broken :: bool

text \<open>
  A member of an archive either extracts to its data, or its extraction raises: the
  archive library reports damage as \<open>BadZipFile\<close> (a bad header, a bad checksum) or, from
  the decompressor, as \<open>zlib.error\<close>. A member that fails after its target file was
  opened leaves there what was written until then; \<open>None\<close> when the target was not yet
  created.
\<close>

datatype member = Extracts bytes | Fails py_error "bytes option"

text \<open>
  The collaborators the script consumes: the server (an exception or a response for a
  URL), Python's \<open>int\<close> on a header value (\<open>None\<close> for \<open>ValueError\<close>), the archive
  reader (\<open>None\<close> when opening the bytes as an archive raises \<open>BadZipFile\<close>; otherwise the
  members in order), and the directory of the script.
\<close>

record world =
  http_get :: "string \<Rightarrow> py_error + response"
  py_int :: "string \<Rightarrow> int option"
  zip_read :: "bytes \<Rightarrow> (path \<times> member) list option"
  repo_root :: path

text \<open>
  The state: the regular files, the URLs requested so far, and the progress bars that
  were shown, each with its description, its declared total and the count it reached.
\<close>

record fstate =
  files :: "path \<rightharpoonup> bytes"
  requested :: "string list"
  bars :: "(string \<times> int \<times> nat) list"

definition path_name :: "path \<Rightarrow> string" where
  "path_name p = (if p = [] then [] else last p)"

text \<open>\<open>response.raise_for_status()\<close>: an error status raises \<open>HTTPError\<close>.\<close>

definition raise_for_status :: "response \<Rightarrow> bool" where
  "raise_for_status r = (400 \<le> status_code r \<and> status_code r < 600)"

text \<open>Line 30: \<open>int(response.headers.get('content-length', 0))\<close>.\<close>

definition total_size :: "world \<Rightarrow> response \<Rightarrow> py_error + int" where
  "total_size w r =
     (case headers r ''content-length'' of
        None \<Rightarrow> Inr 0
      | Some v \<Rightarrow> (case py_int w v of None \<Rightarrow> Inl ValueError | Some n \<Rightarrow> Inr n))"

text \<open>Lines 42-44: the body of the loop, on the content of the file and the count of the bar.\<close>

definition write_chunk :: "bytes \<times> nat \<Rightarrow> bytes \<Rightarrow> bytes \<times> nat" where
  "write_chunk acc chunk =
     (if chunk \<noteq> [] then (fst acc @ chunk, snd acc + length chunk) else acc)"

text \<open>
  \<open>download_file\<close>, lines 22-44. The file is opened for writing (created or truncated)
  once the response is there; a stream that breaks leaves the chunks received so far in
  it.
\<close>

definition download_file :: "world \<Rightarrow> string \<Rightarrow> path \<Rightarrow> fstate \<Rightarrow> (py_error + unit) \<times> fstate" where
  "download_file w url filepath s =
     (let s1 = s\<lparr>requested := requested s @ [url]\<rparr>
      in case http_get w url of
           Inl e \<Rightarrow> (Inl e, s1)
         | Inr r \<Rightarrow>
             if raise_for_status r then (Inl RequestException, s1)
             else
               (case total_size w r of
                  Inl e \<Rightarrow> (Inl e, s1)
                | Inr declared \<Rightarrow>
                    (let acc = foldl write_chunk ([], 0) (body r);
                         s2 = s1\<lparr>files := (files s1)(filepath \<mapsto> fst acc),
                                 bars := bars s1 @ [(path_name filepath, declared, snd acc)]\<rparr>
                     in (if broken r then Inl RequestException else Inr (), s2))))"

text \<open>Lines 56-58: the members in order, up to the first that fails.\<close>

fun extract_members ::
  "path \<Rightarrow> (path \<times> member) list \<Rightarrow> (path \<rightharpoonup> bytes) \<times> nat
     \<Rightarrow> (py_error + unit) \<times> (path \<rightharpoonup> bytes) \<times> nat" where
  "extract_members extract_to [] acc = (Inr (), acc)"
| "extract_members extract_to ((name, m) # rest) acc =
     (case m of
        Fails e left \<Rightarrow>
          (Inl e,
           (case left of None \<Rightarrow> fst acc | Some part \<Rightarrow> (fst acc)(extract_to @ name \<mapsto> part)),
           snd acc)
      | Extracts data \<Rightarrow>
          extract_members extract_to rest ((fst acc)(extract_to @ name \<mapsto> data), snd acc + 1))"

text \<open>\<open>extract_zip\<close>, lines 47-58.\<close>

definition extract_zip :: "world \<Rightarrow> path \<Rightarrow> path \<Rightarrow> fstate \<Rightarrow> (py_error + unit) \<times> fstate" where
  "extract_zip w zip_path extract_to s =
     (case files s zip_path of
        None \<Rightarrow> (Inl FileNotFoundError, s)
      | Some archive \<Rightarrow>
          (case zip_read w archive of
             None \<Rightarrow> (Inl BadZipFile, s)
           | Some file_list \<Rightarrow>
               (let r = extract_members extract_to file_list (files s, 0)
                in (fst r, s\<lparr>files := fst (snd r),
                              bars := bars s @ [(''Extracting'', int (length file_list),
                                                 snd (snd r))]\<rparr>))))"

definition dropbox_url :: string where
  "dropbox_url = ''https://www.dropbox.com/scl/fo/gvfjc8bq259l4cre2ai0k/AIxkWTcEOcvIIYe7RDlZpag?rlkey=x4lxph520gbt0tjy839gmwoc0&e=1&dl=1''"

definition checkpoints_dir :: "world \<Rightarrow> path" where
  "checkpoints_dir w = repo_root w @ [''checkpoints'']"

definition zip_path :: "world \<Rightarrow> path" where
  "zip_path w = checkpoints_dir w @ [''ifrnet_checkpoints.zip'']"

text \<open>\<open>Path.unlink\<close>: raises when there is no such file.\<close>

definition unlink :: "path \<Rightarrow> fstate \<Rightarrow> (py_error + unit) \<times> fstate" where
  "unlink p s =
     (case files s p of
        None \<Rightarrow> (Inl FileNotFoundError, s)
      | Some _ \<Rightarrow> (Inr (), s\<lparr>files := (files s)(p := None)\<rparr>))"

text \<open>
  The \<open>try\<close> block of \<open>main\<close>, lines 77-113: the directory, the download, the
  extraction, the removal of the archive. The listing that follows only prints.
\<close>

definition main_try :: "world \<Rightarrow> fstate \<Rightarrow> (py_error + unit) \<times> fstate" where
  "main_try w s =
     (if files s (checkpoints_dir w) \<noteq> None then (Inl OSError, s)
      else
        (case download_file w dropbox_url (zip_path w) s of
           (Inl e, s1) \<Rightarrow> (Inl e, s1)
         | (Inr _, s1) \<Rightarrow>
             (case extract_zip w (zip_path w) (checkpoints_dir w) s1 of
                (Inl e, s2) \<Rightarrow> (Inl e, s2)
              | (Inr _, s2) \<Rightarrow> unlink (zip_path w) s2)))"

text \<open>
  \<open>main\<close> of the fetcher, lines 61-125: the \<open>try\<close> block under its three handlers. The
  result is the exit status of the process and the final state.
\<close>

definition main_fetch :: "world \<Rightarrow> fstate \<Rightarrow> nat \<times> fstate" where
  "main_fetch w s =
     (case main_try w s of
        (Inr _, s1) \<Rightarrow> (0, s1)
      | (Inl RequestException, s1) \<Rightarrow> (1, s1)
      | (Inl BadZipFile, s1) \<Rightarrow>
          (1, if files s1 (zip_path w) \<noteq> None
              then s1\<lparr>files := (files s1)(zip_path w := None)\<rparr> else s1)
      | (Inl _, s1) \<Rightarrow> (1, s1))"

subsection \<open>Concrete inputs of the fetcher\<close>

text \<open>
  A server that answers 200 without a content-length header and streams three chunks, one
  of them empty; an archive reader that knows one archive; one for which no bytes are an
  archive; an empty file system.
\<close>

definition answer :: response where
  "answer = \<lparr>status_code = 200, headers = Map.empty, body = [''PK'', [], ''zip''],
              broken = False\<rparr>"

definition good_world :: world where
  "good_world =
     \<lparr>http_get = (\<lambda>u. Inr answer),
      py_int = (\<lambda>v. None),
      zip_read = (\<lambda>b. if b = ''PKzip'' then Some [([''IFRNet'', ''a.pth''], Extracts ''w'')]
                       else None),
      repo_root = [''repo'']\<rparr>"

definition corrupt_world :: world where
  "corrupt_world = good_world\<lparr>zip_read := (\<lambda>b. None)\<rparr>"

text \<open>
  An archive whose one member has damaged compressed data: the decompressor raises while
  the member is copied, and the target file is left empty.
\<close>

definition damaged_world :: world where
  "damaged_world =
     good_world\<lparr>zip_read := (\<lambda>b. Some [([''IFRNet'', ''a.pth''], Fails ZlibError (Some []))])\<rparr>"

definition offline_world :: world where
  "offline_world = good_world\<lparr>http_get := (\<lambda>u. Inl RequestException)\<rparr>"

definition empty_disk :: fstate where
  "empty_disk = \<lparr>files = Map.empty, requested = [], bars = []\<rparr>"

section \<open>Properties of the float arithmetic\<close>

subsection \<open>Rounding to an integer\<close>

text \<open>
  \<open>py_round x\<close> is the integer nearest to \<open>x\<close>, the even one of the two when \<open>x\<close> lies
  halfway; these two facts determine it.
\<close>

lemma py_round_cases:
  obtains (down) "x - of_int \<lfloor>x\<rfloor> < 1 / 2" "py_round x = \<lfloor>x\<rfloor>"
    | (up) "1 / 2 < x - of_int \<lfloor>x\<rfloor>" "py_round x = \<lfloor>x\<rfloor> + 1"
    | (tie_down) "x - of_int \<lfloor>x\<rfloor> = 1 / 2" "even \<lfloor>x\<rfloor>" "py_round x = \<lfloor>x\<rfloor>"
    | (tie_up) "x - of_int \<lfloor>x\<rfloor> = 1 / 2" "odd \<lfloor>x\<rfloor>" "py_round x = \<lfloor>x\<rfloor> + 1"
proof -
  consider "x - of_int \<lfloor>x\<rfloor> < 1 / 2" | "1 / 2 < x - of_int \<lfloor>x\<rfloor>"
    | "x - of_int \<lfloor>x\<rfloor> = 1 / 2" "even \<lfloor>x\<rfloor>" | "x - of_int \<lfloor>x\<rfloor> = 1 / 2" "odd \<lfloor>x\<rfloor>"
    by fastforce
  then show thesis
  proof cases
    case 1
    then show ?thesis using down by (simp add: py_round_def Let_def)
  next
    case 2
    then show ?thesis using up by (simp add: py_round_def Let_def)
  next
    case 3
    then show ?thesis using tie_down by (simp add: py_round_def Let_def)
  next
    case 4
    then show ?thesis using tie_up by (simp add: py_round_def Let_def)
  qed
qed

lemma py_round_nearest: "\<bar>x - of_int (py_round x)\<bar> \<le> 1 / 2"
proof -
  have b: "of_int \<lfloor>x\<rfloor> \<le> x" "x < of_int \<lfloor>x\<rfloor> + 1" by linarith+
  show ?thesis
  proof (cases x rule: py_round_cases)
    case down
    then show ?thesis using b by simp
  next
    case up
    then show ?thesis using b by simp
  next
    case tie_down
    then show ?thesis by simp
  next
    case tie_up
    then show ?thesis by simp
  qed
qed

lemma py_round_tie_even: "\<bar>x - of_int (py_round x)\<bar> = 1 / 2 \<Longrightarrow> even (py_round x)"
proof -
  assume t: "\<bar>x - of_int (py_round x)\<bar> = 1 / 2"
  have b: "of_int \<lfloor>x\<rfloor> \<le> x" "x < of_int \<lfloor>x\<rfloor> + 1" by linarith+
  show ?thesis
  proof (cases x rule: py_round_cases)
    case down
    then show ?thesis using t b by simp
  next
    case up
    then show ?thesis using t b by simp
  next
    case tie_down
    then show ?thesis by simp
  next
    case tie_up
    then show ?thesis by simp
  qed
qed

lemma py_round_eqI:
  assumes "\<bar>x - of_int m\<bar> \<le> 1 / 2" and "\<bar>x - of_int m\<bar> = 1 / 2 \<Longrightarrow> even m"
  shows "py_round x = m"
proof (rule ccontr)
  assume ne: "py_round x \<noteq> m"
  define r where "r = py_round x"
  have n: "\<bar>x - of_int r\<bar> \<le> 1 / 2" unfolding r_def by (rule py_round_nearest)
  have "\<bar>(of_int r :: rat) - of_int m\<bar> \<le> 1" using n assms(1) by linarith
  then have "(of_int \<bar>r - m\<bar> :: rat) \<le> of_int 1" by simp
  then have "\<bar>r - m\<bar> \<le> 1" by (simp only: of_int_le_iff)
  with ne have d: "r = m + 1 \<or> r = m - 1" unfolding r_def by linarith
  then have "(of_int r :: rat) = of_int m + 1 \<or> (of_int r :: rat) = of_int m - 1" by auto
  then have "\<bar>x - of_int m\<bar> = 1 / 2 \<and> \<bar>x - of_int r\<bar> = 1 / 2"
    using n assms(1) by linarith
  then have "even m" "even r" using assms(2) py_round_tie_even r_def by blast+
  with d show False by auto
qed

lemma py_round_of_int: "py_round (of_int m) = m"
  by (rule py_round_eqI) simp_all

lemma py_round_le: "x \<le> of_int k \<Longrightarrow> py_round x \<le> k"
proof -
  assume "x \<le> of_int k"
  moreover have "\<bar>x - of_int (py_round x)\<bar> \<le> 1 / 2" by (rule py_round_nearest)
  ultimately have "(of_int (py_round x) :: rat) < of_int k + 1" by linarith
  then have "py_round x < k + 1" by (metis of_int_1 of_int_add of_int_less_iff)
  then show ?thesis by simp
qed

lemma py_round_ge: "of_int k \<le> x \<Longrightarrow> k \<le> py_round x"
proof -
  assume "of_int k \<le> x"
  moreover have "\<bar>x - of_int (py_round x)\<bar> \<le> 1 / 2" by (rule py_round_nearest)
  ultimately have "(of_int k :: rat) - 1 < of_int (py_round x)" by linarith
  then have "k - 1 < py_round x" by (metis of_int_1 of_int_diff of_int_less_iff)
  then show ?thesis by simp
qed

subsection \<open>Rounding to a double\<close>

lemma bitlen_bounds_rat:
  assumes "0 < n"
  shows "power_int 2 (bitlen n - 1) \<le> (of_int n :: rat)" "(of_int n :: rat) < power_int 2 (bitlen n)"
proof -
  have b: "2 ^ nat (bitlen n - 1) \<le> n" "n < 2 ^ nat (bitlen n)"
    using bitlen_bounds [OF assms] by blast+
  have pos: "1 \<le> bitlen n" using assms by (auto simp: bitlen_alt_def)
  have "(of_int (2 ^ nat (bitlen n - 1)) :: rat) \<le> of_int n" using b(1) by (simp only: of_int_le_iff)
  then show "power_int 2 (bitlen n - 1) \<le> (of_int n :: rat)"
    using pos by (simp add: power_int_def)
  have "(of_int n :: rat) < of_int (2 ^ nat (bitlen n))" using b(2) by (simp only: of_int_less_iff)
  then show "(of_int n :: rat) < power_int 2 (bitlen n)"
    using pos by (simp add: power_int_def)
qed

lemma binade_bounds:
  assumes "q \<noteq> 0"
  shows "power_int 2 (binade q) \<le> \<bar>q\<bar>" "\<bar>q\<bar> < power_int 2 (binade q + 1)"
proof -
  define a where "a = \<bar>q\<bar>"
  obtain n d where nd: "quotient_of a = (n, d)" by (cases "quotient_of a")
  have a: "0 < a" using assms by (simp add: a_def)
  have d: "0 < d" using nd by (rule quotient_of_denom_pos)
  have q: "a = of_int n / of_int d" using nd by (rule quotient_of_div)
  have n: "0 < n" using a d q by (simp add: zero_less_divide_iff)
  define k where "k = bitlen n - bitlen d"
  note bn = bitlen_bounds_rat [OF n] and bd = bitlen_bounds_rat [OF d]
  have dpos: "(0 :: rat) < of_int d" using d by simp
  have p: "\<And>j. (0 :: rat) < power_int 2 j" by simp
  have lo: "(power_int 2 (k - 1) :: rat) < a"
  proof -
    have "(power_int 2 (k - 1) :: rat) * of_int d < power_int 2 (k - 1) * power_int 2 (bitlen d)"
      using bd(2) p by (simp add: mult_strict_left_mono)
    also have "\<dots> = power_int 2 (bitlen n - 1)"
      by (simp add: k_def power_int_add [symmetric])
    also have "\<dots> \<le> of_int n" by (rule bn(1))
    finally show ?thesis using dpos by (simp add: q pos_less_divide_eq)
  qed
  have hi: "a < power_int 2 (k + 1)"
  proof -
    have "of_int n < (power_int 2 (bitlen n) :: rat)" by (rule bn(2))
    also have "\<dots> = power_int 2 (k + 1) * power_int 2 (bitlen d - 1)"
      by (simp add: k_def power_int_add [symmetric])
    also have "\<dots> \<le> power_int 2 (k + 1) * of_int d"
      using bd(1) p by (simp add: mult_left_mono less_imp_le)
    finally show ?thesis using dpos by (simp add: q pos_divide_less_eq)
  qed
  have b: "binade q = (if power_int 2 k \<le> a then k else k - 1)"
    by (simp add: binade_def a_def [symmetric] nd k_def Let_def)
  show "power_int 2 (binade q) \<le> \<bar>q\<bar>"
    using lo by (simp add: b a_def [symmetric] less_imp_le)
  show "\<bar>q\<bar> < power_int 2 (binade q + 1)"
    using hi by (auto simp: b a_def [symmetric] not_le)
qed

lemma binade_eqI:
  assumes "power_int 2 e \<le> \<bar>q\<bar>" and "\<bar>q\<bar> < power_int 2 (e + 1)"
  shows "binade q = e"
proof -
  have "(0 :: rat) < power_int 2 e" by simp
  then have "0 < \<bar>q\<bar>" using assms(1) by (rule less_le_trans)
  then have q: "q \<noteq> 0" by simp
  note b = binade_bounds [OF q]
  have c: "i < j" if "(power_int 2 i :: rat) < power_int 2 j" for i j :: int
  proof (rule ccontr)
    assume "\<not> i < j"
    then have "(power_int 2 j :: rat) \<le> power_int 2 i" by (intro power_int_increasing) simp_all
    with that show False by simp
  qed
  have "(power_int 2 e :: rat) < power_int 2 (binade q + 1)" using assms(1) b(2) by simp
  then have 1: "e < binade q + 1" by (rule c)
  have "(power_int 2 (binade q) :: rat) < power_int 2 (e + 1)" using assms(2) b(1) by simp
  then have 2: "binade q < e + 1" by (rule c)
  show ?thesis using 1 2 by simp
qed

lemma round_double_eqI:
  assumes "power_int 2 e \<le> \<bar>q\<bar>" and "\<bar>q\<bar> < power_int 2 (e + 1)" and "- 1022 \<le> e"
    and "\<bar>q / power_int 2 (e - 52) - of_int m\<bar> \<le> 1 / 2"
    and "\<bar>q / power_int 2 (e - 52) - of_int m\<bar> = 1 / 2 \<Longrightarrow> even m"
    and "\<bar>of_int m * power_int 2 (e - 52)\<bar> < (power_int 2 1024 :: rat)"
  shows "round_double q = Finite (of_int m * power_int 2 (e - 52))"
proof -
  have "(0 :: rat) < power_int 2 e" by simp
  then have "0 < \<bar>q\<bar>" using assms(1) by (rule less_le_trans)
  then have q: "q \<noteq> 0" by simp
  have b: "binade q = e" using assms(1,2) by (rule binade_eqI)
  have r: "py_round (q / power_int 2 (e - 52)) = m" using assms(4,5) by (rule py_round_eqI)
  have mx: "max e (- 1022) = e" using assms(3) by simp
  show ?thesis
    using q assms(6) by (simp add: round_double_def b mx r Let_def not_le del: power_int_numeral)
qed

lemma round_double_overflow:
  assumes "power_int 2 1024 \<le> \<bar>q\<bar>"
  shows "round_double q = (if 0 < q then PosInf else NegInf)"
proof -
  have "(0 :: rat) < power_int 2 1024" by simp
  then have "0 < \<bar>q\<bar>" using assms by (rule less_le_trans)
  then have q: "q \<noteq> 0" by simp
  define e where "e = binade q"
  note b = binade_bounds [OF q, folded e_def]
  have e: "1024 \<le> e"
  proof (rule ccontr)
    assume "\<not> 1024 \<le> e"
    then have "e + 1 \<le> 1024" by simp
    then have "(power_int 2 (e + 1) :: rat) \<le> power_int 2 1024"
      by (intro power_int_increasing) simp_all
    with b(2) assms show False by linarith
  qed
  then have mx: "max e (- 1022) = e" by simp
  define ulp :: rat where "ulp = power_int 2 (e - 52)"
  have ulp: "0 < ulp" by (simp add: ulp_def)
  define m where "m = py_round (q / ulp)"
  have p52: "(power_int 2 e :: rat) = of_int (2 ^ 52) * ulp"
    by (simp add: ulp_def power_int_diff)
  have big: "power_int 2 1024 \<le> \<bar>of_int m * ulp\<bar>"
  proof (cases "0 < q")
    case True
    then have "of_int (2 ^ 52) * ulp \<le> q" using b(1) p52 by simp
    then have "of_int (2 ^ 52) \<le> q / ulp" using ulp by (simp add: pos_le_divide_eq)
    then have "2 ^ 52 \<le> m" unfolding m_def by (rule py_round_ge)
    then have "(of_int (2 ^ 52) :: rat) \<le> of_int m" by (simp only: of_int_le_iff)
    then have "of_int (2 ^ 52) * ulp \<le> of_int m * ulp"
      using ulp by (intro mult_right_mono) simp_all
    then have "power_int 2 e \<le> of_int m * ulp" using p52 by simp
    moreover have "(power_int 2 1024 :: rat) \<le> power_int 2 e"
      using e by (intro power_int_increasing) simp_all
    ultimately show ?thesis by linarith
  next
    case False
    then have "of_int (2 ^ 52) * ulp \<le> - q" using b(1) p52 q by simp
    then have "q / ulp \<le> of_int (- (2 ^ 52))" using ulp by (simp add: pos_divide_le_eq)
    then have "m \<le> - (2 ^ 52)" unfolding m_def by (rule py_round_le)
    then have "(of_int m :: rat) \<le> of_int (- (2 ^ 52))" by (simp only: of_int_le_iff)
    then have "of_int m * ulp \<le> of_int (- (2 ^ 52)) * ulp"
      using ulp by (intro mult_right_mono) simp_all
    then have "of_int m * ulp \<le> - power_int 2 e" using p52 by simp
    moreover have "(power_int 2 1024 :: rat) \<le> power_int 2 e"
      using e by (intro power_int_increasing) simp_all
    ultimately show ?thesis by linarith
  qed
  show ?thesis
    using q big
    by (simp add: round_double_def e_def [symmetric] mx ulp_def [symmetric] m_def [symmetric]
        Let_def del: power_int_numeral)
qed

lemma round_double_le_one:
  assumes "q \<le> 1"
  shows "le_one (round_double q)"
proof (cases "q = 0")
  case True
  then show ?thesis by (simp add: round_double_def le_one_def)
next
  case q: False
  define e where "e = max (binade q) (- 1022)"
  define ulp :: rat where "ulp = power_int 2 (e - 52)"
  have ulp: "0 < ulp" by (simp add: ulp_def)
  define m where "m = py_round (q / ulp)"
  have r: "of_int m * ulp \<le> 1"
  proof (cases "0 < q")
    case True
    have "power_int 2 (binade q) \<le> \<bar>q\<bar>" using q by (rule binade_bounds)
    then have "(power_int 2 (binade q) :: rat) \<le> power_int 2 0" using assms True by simp
    have "binade q \<le> 0"
    proof (rule ccontr)
      assume "\<not> binade q \<le> 0"
      then have "1 \<le> binade q" by simp
      then have "(power_int 2 1 :: rat) \<le> power_int 2 (binade q)"
        by (intro power_int_increasing) simp_all
      with \<open>power_int 2 (binade q) \<le> \<bar>q\<bar>\<close> assms True show False by simp
    qed
    then have e: "e \<le> 0" by (simp add: e_def)
    have inv: "(1 :: rat) = of_int (2 ^ nat (52 - e)) * ulp"
    proof -
      have "(of_int (2 ^ nat (52 - e)) :: rat) = power_int 2 (52 - e)"
        using e by (simp add: power_int_def)
      then have "of_int (2 ^ nat (52 - e)) * ulp = power_int 2 (52 - e) * power_int 2 (e - 52)"
        by (simp add: ulp_def)
      also have "\<dots> = (1 :: rat)" by (simp add: power_int_add [symmetric])
      finally show ?thesis by simp
    qed
    have "q \<le> of_int (2 ^ nat (52 - e)) * ulp" using assms inv by simp
    then have "q / ulp \<le> of_int (2 ^ nat (52 - e))" using ulp by (simp add: pos_divide_le_eq)
    then have "m \<le> 2 ^ nat (52 - e)" unfolding m_def by (rule py_round_le)
    then have "(of_int m :: rat) \<le> of_int (2 ^ nat (52 - e))" by (simp only: of_int_le_iff)
    then have "of_int m * ulp \<le> of_int (2 ^ nat (52 - e)) * ulp"
      using ulp by (intro mult_right_mono) simp_all
    then show ?thesis using inv by simp
  next
    case False
    then have "q / ulp \<le> of_int 0" using ulp by (simp add: divide_le_0_iff)
    then have "m \<le> 0" unfolding m_def by (rule py_round_le)
    then have "(of_int m :: rat) \<le> 0" by simp
    then have "of_int m * ulp \<le> 0" using ulp by (simp add: mult_le_0_iff)
    then show ?thesis by simp
  qed
  have pos: "0 < q \<Longrightarrow> \<bar>of_int m * ulp\<bar> < (power_int 2 1024 :: rat)"
  proof -
    assume "0 < q"
    then have "of_int 0 \<le> q / ulp" using ulp by simp
    then have "0 \<le> m" unfolding m_def by (rule py_round_ge)
    then have "0 \<le> of_int m * ulp" using ulp by simp
    moreover have "(1 :: rat) < power_int 2 1024" by simp
    ultimately show ?thesis using r by simp
  qed
  show ?thesis
    using q r pos
    by (auto simp: round_double_def e_def [symmetric] ulp_def [symmetric] m_def [symmetric]
        Let_def le_one_def simp del: power_int_numeral)
qed

subsection \<open>Quotients of frame rates\<close>

text \<open>
  The quotients used below, among them two that the rounding of the division moves onto
  a tie (59.95 / 23.98 is 2.5 and 35.97 / 23.98 is 1.5 as doubles, though not exactly)
  and one that overflows.
\<close>

lemma div_90_30: "float_div (Finite 90) (Finite 30) = Inr (Finite 3)"
  using round_double_eqI [of 1 3 "3 * 2 ^ 51"] by (simp add: float_div_def)

lemma div_60_30: "float_div (Finite 60) (Finite 30) = Inr (Finite 2)"
  using round_double_eqI [of 1 2 "2 ^ 52"] by (simp add: float_div_def)

lemma div_24_30:
  "float_div (Finite 24) (Finite 30) = Inr (Finite (3602879701896397 / 4503599627370496))"
  using round_double_eqI [of "- 1" "4 / 5" 7205759403792794] by (simp add: float_div_def)

lemma div_40_30:
  "float_div (Finite 40) (Finite 30) = Inr (Finite (6004799503160661 / 4503599627370496))"
  using round_double_eqI [of 0 "4 / 3" 6004799503160661] by (simp add: float_div_def)

lemma div_59_95: "float_div (Finite d59_95) (Finite d23_98) = Inr (Finite (5 / 2))"
  using round_double_eqI [of 1 "d59_95 / d23_98" 5629499534213120]
  by (simp add: float_div_def d59_95_def d23_98_def)

lemma div_35_97: "float_div (Finite d35_97) (Finite d23_98) = Inr (Finite (3 / 2))"
  using round_double_eqI [of 0 "d35_97 / d23_98" 6755399441055744]
  by (simp add: float_div_def d35_97_def d23_98_def)

lemma div_1e308: "float_div (Finite d1e308) (Finite (1 / 2)) = Inr PosInf"
  using round_double_overflow [of "d1e308 / (1 / 2)"]
  by (simp add: float_div_def d1e308_def)

section \<open>Properties of the upconverter\<close>

subsection \<open>The loops\<close>

lemma foldl_inner_step:
  "foldl (inner_step I m n f0 f1) s ks =
     s\<lparr>written := written s @ map (\<lambda>k. I m f0 f1 (of_int k / of_int (n + 1))) ks,
       calls := calls s @ map (\<lambda>k. (f0, f1, of_int k / of_int (n + 1))) ks\<rparr>"
  by (induction ks arbitrary: s) (simp_all add: inner_step_def interpolate_frame_def Let_def)

lemma pair_step_eq:
  "pair_step I m n frames s i =
     s\<lparr>written := written s @ pair_frames I m n frames i,
       calls := calls s @ pair_calls n frames i\<rparr>"
  by (simp add: pair_step_def foldl_inner_step pair_frames_def pair_calls_def
      time_positions_def Let_def comp_def)

lemma foldl_pair_step:
  "foldl (pair_step I m n frames) s js =
     s\<lparr>written := written s @ concat (map (pair_frames I m n frames) js),
       calls := calls s @ concat (map (pair_calls n frames) js)\<rparr>"
  by (induction js arbitrary: s) (simp_all add: pair_step_eq)

lemma synthesize_eq:
  "frames \<noteq> [] \<Longrightarrow> synthesize I m n frames s =
     s\<lparr>written := written s @ concat (map (pair_frames I m n frames) [0..<length frames - 1])
                      @ [last frames],
       calls := calls s @ concat (map (pair_calls n frames) [0..<length frames - 1])\<rparr>"
  by (simp add: synthesize_def foldl_pair_step Let_def)

subsection \<open>The run up to the loop\<close>

lemma main_run:
  assumes "load_model fresh file = Inr model" and "isOpened cap"
    and "factor target (cap_fps cap) = Inr f" and "interp_count f = Inr n"
  shows "main I fresh file cap target =
           synthesize I model n (cap_frames cap)
             \<lparr>writer = Some (target, cap_width cap, cap_height cap),
              written = [], calls = [], raised = None\<rparr>"
  using assms by (simp add: main_def Let_def)

lemma main_count_raises:
  assumes "load_model fresh file = Inr model" and "isOpened cap"
    and "factor target (cap_fps cap) = Inr f" and "interp_count f = Inl e"
  shows "main I fresh file cap target =
           \<lparr>writer = Some (target, cap_width cap, cap_height cap),
            written = [], calls = [], raised = Some e\<rparr>"
  using assms by (simp add: main_def Let_def)

lemma factor_cases:
  assumes "factor target fps = Inr f"
  obtains "f = Finite 1" | r where "f = Finite r" "1 < r" | "f = PosInf" | "f = NaN"
proof -
  obtain q where q: "float_div target fps = Inr q" and f: "f = (if le_one q then Finite 1 else q)"
    using assms by (auto simp: factor_def split: sum.splits)
  show thesis
  proof (cases "le_one q")
    case True
    then show ?thesis using f that(1) by simp
  next
    case False
    then show ?thesis using f that(2,3,4) by (cases q) (auto simp: le_one_def)
  qed
qed

lemma py_round_1: "py_round 1 = 1"
  using py_round_of_int [of 1] by simp

lemma interp_count_nonneg:
  assumes "factor target fps = Inr f" and "interp_count f = Inr n"
  shows "0 \<le> n"
  using assms(1)
proof (cases rule: factor_cases)
  case 1
  then show ?thesis using assms(2) by (simp add: interp_count_def py_round_1)
next
  case (2 r)
  then have "of_int 1 \<le> r" by simp
  then have "1 \<le> py_round r" by (rule py_round_ge)
  then show ?thesis using 2 assms(2) by (auto simp: interp_count_def)
next
  case 3
  then show ?thesis using assms(2) by (simp add: interp_count_def)
next
  case 4
  then show ?thesis using assms(2) by (simp add: interp_count_def)
qed

lemma factor_clamped:
  "float_div target fps = Inr q \<Longrightarrow> le_one q \<Longrightarrow> factor target fps = Inr (Finite 1)"
  by (simp add: factor_def)

lemma interp_count_1: "interp_count (Finite 1) = Inr 0"
  by (simp add: interp_count_def py_round_1)

lemma boundary_counts:
  "factor (Finite d59_95) (Finite d23_98) = Inr (Finite (5 / 2))"
  "interp_count (Finite (5 / 2)) = Inr 1"
  "factor (Finite d35_97) (Finite d23_98) = Inr (Finite (3 / 2))"
  "interp_count (Finite (3 / 2)) = Inr 1"
proof -
  show "factor (Finite d59_95) (Finite d23_98) = Inr (Finite (5 / 2))"
    by (simp add: factor_def div_59_95 le_one_def)
  show "interp_count (Finite (5 / 2)) = Inr 1"
    using py_round_eqI [of "5 / 2" 2] by (simp add: interp_count_def)
  show "factor (Finite d35_97) (Finite d23_98) = Inr (Finite (3 / 2))"
    by (simp add: factor_def div_35_97 le_one_def)
  show "interp_count (Finite (3 / 2)) = Inr 1"
    using py_round_eqI [of "3 / 2" 2] by (simp add: interp_count_def)
qed

subsection \<open>Copying\<close>

lemma time_positions_0: "time_positions 0 = []"
  by (simp add: time_positions_def)

lemma length_time_positions: "length (time_positions n) = nat n"
  by (simp add: time_positions_def)

lemma map_nth_butlast: "map ((!) xs) [0..<length xs - 1] = butlast xs"
proof -
  have "map ((!) xs) [0..<length xs - 1] = map ((!) xs) (take (length xs - 1) [0..<length xs])"
    by (simp add: take_upt)
  also have "\<dots> = take (length xs - 1) (map ((!) xs) [0..<length xs])"
    by (simp only: take_map)
  also have "\<dots> = butlast xs"
    by (simp only: map_nth butlast_conv_take)
  finally show ?thesis .
qed

lemma concat_pair_frames_0:
  "concat (map (pair_frames I m 0 frames) js) = map ((!) frames) js"
  by (induction js) (simp_all add: pair_frames_def time_positions_0)

lemma copy_frames:
  "frames \<noteq> [] \<Longrightarrow>
     concat (map (pair_frames I m 0 frames) [0..<length frames - 1]) @ [last frames] = frames"
  by (simp only: concat_pair_frames_0 map_nth_butlast) simp

lemma synthesize_0:
  "frames \<noteq> [] \<Longrightarrow> synthesize I m 0 frames s = s\<lparr>written := written s @ frames\<rparr>"
  by (simp add: synthesize_eq copy_frames pair_calls_def time_positions_0 del: One_nat_def)

lemma load_weights:
  "load_model fresh_model (Some weights) = Inr [(''encoder.weight'', 7), (''decoder.bias'', 1)]"
  by (simp add: load_model_def weights_def flat_checkpoint_def stored_def fresh_model_def
      load_state_dict_def load_param_def)

lemma factor_24_30: "factor (Finite 24) (Finite 30) = Inr (Finite 1)"
  by (simp add: factor_def div_24_30 le_one_def)

lemma factor_40_30:
  "factor (Finite 40) (Finite 30) = Inr (Finite (6004799503160661 / 4503599627370496))"
  by (simp add: factor_def div_40_30 le_one_def)

lemma count_40_30: "interp_count (Finite (6004799503160661 / 4503599627370496)) = Inr 0"
  using py_round_eqI [of "6004799503160661 / 4503599627370496" 1]
  by (simp add: interp_count_def)

text \<open>
  The quotient of line 68 is at most 1 whenever the exact quotient of the two rates is: the
  rounding of the division does not cross 1.
\<close>

lemma exact_quotient_le_one:
  "y \<noteq> 0 \<Longrightarrow> x / y \<le> 1 \<Longrightarrow>
     \<exists>q. float_div (Finite x) (Finite y) = Inr q \<and> le_one q"
  by (simp add: float_div_def round_double_le_one)

text \<open>
  C1. For a video that opened with at least one frame and a checkpoint that loaded, let
  \<open>q\<close> be the quotient \<open>target_fps / source_fps\<close> that line 68 computes and \<open>f\<close> the factor
  after lines 69-71: when \<open>q \<le> 1\<close> (the factor is then 1), or when the count that line 88
  computes from \<open>f\<close> is 0, the frames written are the input frames, unchanged and in
  order; \<open>interpolate_frame\<close> is never called and the run ends without an exception.
\<close>

theorem copy_when_no_upscale:
  assumes "load_model fresh file = Inr model" and "isOpened cap" and "cap_frames cap \<noteq> []"
    and "float_div target (cap_fps cap) = Inr q"
    and "factor target (cap_fps cap) = Inr f"
    and "le_one q \<or> interp_count f = Inr 0"
  shows "written (main I fresh file cap target) = cap_frames cap
       \<and> calls (main I fresh file cap target) = []
       \<and> raised (main I fresh file cap target) = None"
proof -
  have n: "interp_count f = Inr 0"
    using assms(4,5,6) factor_clamped interp_count_1 by fastforce
  show ?thesis
    using assms(3) by (simp add: main_run [OF assms(1,2,5) n] synthesize_0)
qed

theorem copy_when_no_upscale_witness:
  "written (main blend fresh_model (Some weights) (clip (Finite 30) [10, 20, 40]) (Finite 24))
     = [10, 20, 40]
   \<and> written (main blend fresh_model (Some weights) (clip (Finite 30) [10, 20, 40]) (Finite 40))
     = [10, 20, 40]"
proof -
  let ?C = "clip (Finite 30) [10, 20, 40]"
  have c: "isOpened ?C" "cap_frames ?C \<noteq> []" "cap_fps ?C = Finite 30"
    "cap_frames ?C = [10, 20, 40]"
    by (simp_all add: clip_def)
  have a: "written (main blend fresh_model (Some weights) ?C (Finite 24)) = [10, 20, 40]"
    using copy_when_no_upscale [OF load_weights c(1,2), of "Finite 24" _ "Finite 1" blend]
    by (simp add: c div_24_30 factor_24_30 le_one_def)
  have b: "written (main blend fresh_model (Some weights) ?C (Finite 40)) = [10, 20, 40]"
    using copy_when_no_upscale [OF load_weights c(1,2), of "Finite 40" _ _ blend]
    by (simp add: c div_40_30 factor_40_30 count_40_30)
  show ?thesis using a b by (intro conjI)
qed

subsection \<open>Two frames, one frame, no frame\<close>

text \<open>
  C2. At line 90, nothing written yet, for exactly two frames \<open>a\<close>, \<open>b\<close> and the count
  \<open>N \<ge> 0\<close>: the frames written are \<open>a\<close>, then the results of the calls of the
  interpolation on \<open>(a, b, k / (N + 1))\<close> for \<open>k = 1..N\<close> in ascending \<open>k\<close>, then \<open>b\<close>; the
  calls are exactly these, in this order; the number of frames written is \<open>2 + N\<close>.
\<close>

theorem two_frames_schedule:
  assumes "0 \<le> N" and "written s = []" and "calls s = []"
  shows "written (synthesize I m N [a, b] s)
           = a # map (\<lambda>k. I m a b (of_int k / of_int (N + 1))) [1..N] @ [b]
       \<and> calls (synthesize I m N [a, b] s)
           = map (\<lambda>k. (a, b, of_int k / of_int (N + 1))) [1..N]
       \<and> int (length (written (synthesize I m N [a, b] s))) = 2 + N
       \<and> raised (synthesize I m N [a, b] s) = raised s"
  using assms
  by (simp add: synthesize_eq pair_frames_def pair_calls_def time_positions_def comp_def)

theorem two_frames_schedule_witness:
  "written (synthesize blend () 2 [10, 40] start) = [10, 20, 30, 40]
   \<and> calls (synthesize blend () 2 [10, 40] start) = [(10, 40, 1 / 3), (10, 40, 2 / 3)]"
proof -
  have u: "[1..2::int] = [1, 2]" by code_simp
  have s: "written start = []" "calls start = []" by (simp_all add: start_def)
  show ?thesis
    using two_frames_schedule [of 2 start blend "()" 10 40, OF _ s]
    by (simp add: u blend_def)
qed

text \<open>The same for a run of \<open>main\<close> in which line 88 computes the count \<open>N\<close>.\<close>

lemma two_frames_main:
  assumes "load_model fresh file = Inr model" and "isOpened cap"
    and "factor target (cap_fps cap) = Inr f" and "interp_count f = Inr N"
    and "cap_frames cap = [a, b]"
  shows "written (main I fresh file cap target)
           = a # map (\<lambda>k. I model a b (of_int k / of_int (N + 1))) [1..N] @ [b]"
  by (simp add: main_run [OF assms(1-4)] assms(5) synthesize_eq pair_frames_def
      time_positions_def comp_def)

lemma factor_90_30: "factor (Finite 90) (Finite 30) = Inr (Finite 3)"
  by (simp add: factor_def div_90_30 le_one_def)

lemma count_3: "interp_count (Finite 3) = Inr 2"
  using py_round_of_int [of 3] by (simp add: interp_count_def)

text \<open>
  C5. For a video of exactly one frame, in a run where line 88 computes a count (the
  factor is finite), the frames written are that one frame; the interpolation is never
  called (the log of calls is empty: the loop over the pairs has no pass).
\<close>

theorem one_frame_passthrough:
  assumes "load_model fresh file = Inr model" and "isOpened cap"
    and "factor target (cap_fps cap) = Inr f" and "interp_count f = Inr n"
    and "cap_frames cap = [a]"
  shows "written (main I fresh file cap target) = [a]
       \<and> calls (main I fresh file cap target) = []
       \<and> raised (main I fresh file cap target) = None"
  by (simp add: main_run [OF assms(1-4)] assms(5) synthesize_def)

theorem one_frame_passthrough_witness:
  "written (main blend fresh_model (Some weights) (clip (Finite 30) [10]) (Finite 90)) = [10]
   \<and> calls (main blend fresh_model (Some weights) (clip (Finite 30) [10]) (Finite 90)) = []"
  using one_frame_passthrough [OF load_weights, of "clip (Finite 30) [10]" "Finite 90" "Finite 3" 2
      10 blend]
  by (simp add: clip_def factor_90_30 count_3)

text \<open>
  Where line 88 raises, the writer is there and nothing is written: a quotient that
  overflows, and a target rate that is a NaN.
\<close>

lemma factor_1e308: "factor (Finite d1e308) (Finite (1 / 2)) = Inr PosInf"
  by (simp add: factor_def div_1e308 le_one_def)

lemma one_frame_overflow:
  "main blend fresh_model (Some weights) (clip (Finite (1 / 2)) [10]) (Finite d1e308)
     = \<lparr>writer = Some (Finite d1e308, 4, 2), written = [], calls = [],
        raised = Some OverflowError\<rparr>"
  using main_count_raises [OF load_weights, of "clip (Finite (1 / 2)) [10]" "Finite d1e308" PosInf
      OverflowError blend]
  by (simp add: clip_def factor_1e308 interp_count_def)

lemma nan_target_raises:
  "main blend fresh_model (Some weights) (clip (Finite 30) [10, 20]) NaN
     = \<lparr>writer = Some (NaN, 4, 2), written = [], calls = [], raised = Some ValueError\<rparr>"
  using main_count_raises [OF load_weights, of "clip (Finite 30) [10, 20]" NaN NaN ValueError blend]
  by (simp add: clip_def factor_def float_div_def le_one_def interp_count_def)

lemma factor_60_30: "factor (Finite 60) (Finite 30) = Inr (Finite 2)"
  by (simp add: factor_def div_60_30 le_one_def)

lemma count_2: "interp_count (Finite 2) = Inr 1"
  using py_round_of_int [of 2] by (simp add: interp_count_def)

text \<open>
  C4. The claim: on an empty frame sequence the final write is skipped and the last
  element is not indexed. The code indexes \<open>frames[-1]\<close> without a guard: on a video
  that opened and decoded to no frame, the writer is created, no frame is written and
  the run ends in \<open>IndexError\<close>.
\<close>

theorem empty_video_raises:
  "main blend fresh_model (Some weights) (clip (Finite 30) []) (Finite 60)
     = \<lparr>writer = Some (Finite 60, 4, 2), written = [], calls = [], raised = Some IndexError\<rparr>"
  using main_run [OF load_weights, of "clip (Finite 30) []" "Finite 60" "Finite 2" 1 blend]
  by (simp add: clip_def factor_60_30 count_2 synthesize_def)

text \<open>
  C10. The division of line 68 is not guarded: for a video that opened and reports the
  frame rate 0, whatever the target rate, the run ends in \<open>ZeroDivisionError\<close> before the
  writer is created; no frame is written, and there is no passthrough.
\<close>

theorem zero_source_rate_fails:
  assumes "load_model fresh file = Inr model" and "isOpened cap" and "cap_fps cap = Finite 0"
  shows "main I fresh file cap target
           = \<lparr>writer = None, written = [], calls = [], raised = Some ZeroDivisionError\<rparr>"
  using assms by (simp add: main_def no_run_def factor_def float_div_def)

theorem zero_source_rate_fails_witness:
  "main blend fresh_model (Some weights) (clip (Finite 0) [10, 20]) (Finite 24)
     = \<lparr>writer = None, written = [], calls = [], raised = Some ZeroDivisionError\<rparr>"
  using zero_source_rate_fails [OF load_weights, of "clip (Finite 0) [10, 20]" blend "Finite 24"]
  by (simp add: clip_def)

subsection \<open>The count of frames and their positions\<close>

lemma length_concat_blocks:
  "(\<And>i. i < m \<Longrightarrow> length (B i) = L) \<Longrightarrow> length (concat (map B [0..<m])) = m * L"
  by (induction m) simp_all

lemma nth_concat_blocks:
  assumes "\<And>i. i < m \<Longrightarrow> length (B i) = L" and "i < m" and "j < L"
  shows "concat (map B [0..<m]) ! (i * L + j) = B i ! j"
  using assms
proof (induction m)
  case 0
  then show ?case by simp
next
  case (Suc m)
  have len: "length (concat (map B [0..<m])) = m * L"
    using Suc.prems(1) by (simp add: length_concat_blocks)
  show ?case
  proof (cases "i < m")
    case True
    then have "i * L + j < m * L"
    proof -
      have "i * L + j < i * L + L" using Suc.prems(3) by simp
      also have "\<dots> = Suc i * L" by simp
      also have "\<dots> \<le> m * L" using True by (intro mult_le_mono1) simp
      finally show ?thesis .
    qed
    then show ?thesis
      using Suc.IH [OF _ True Suc.prems(3)] Suc.prems(1) by (simp add: nth_append len)
  next
    case False
    then have "i = m" using Suc.prems(2) by simp
    then show ?thesis by (simp add: nth_append len)
  qed
qed

lemma length_pair_frames: "length (pair_frames I m n frames i) = Suc (nat n)"
  by (simp add: pair_frames_def length_time_positions)

lemma pair_frames_0: "pair_frames I m n frames i ! 0 = frames ! i"
  by (simp add: pair_frames_def)

lemma pair_frames_k:
  "1 \<le> k \<Longrightarrow> k \<le> N \<Longrightarrow>
     pair_frames I m (int N) frames i ! k
       = I m (frames ! i) (frames ! (i + 1)) (of_nat k / of_nat (N + 1))"
proof -
  assume k: "1 \<le> k" "k \<le> N"
  then obtain j where j: "k = Suc j" by (cases k) auto
  have "[1..int N] ! j = 1 + int j" using k j by (intro nth_upto) simp
  moreover have "j < length [1..int N]" using k j by simp
  ultimately show ?thesis
    by (simp add: pair_frames_def time_positions_def j add.commute)
qed

text \<open>
  C9. At line 90, nothing written yet, for \<open>n \<ge> 1\<close> frames and the count \<open>N\<close>: the output
  has \<open>n + (n - 1) * N\<close> frames; the original frame \<open>i\<close> stands at position \<open>i * (N + 1)\<close>,
  so the originals keep their order; the \<open>N\<close> positions after the original \<open>i\<close>, for
  \<open>i < n - 1\<close>, hold the synthetic frames of the pair \<open>(i, i + 1)\<close> at the time positions
  \<open>k / (N + 1)\<close>, \<open>k = 1..N\<close>.
\<close>

theorem frame_count_and_positions:
  assumes "frames \<noteq> []" and "written s = []"
  shows "length (written (synthesize I model (int N) frames s))
           = length frames + (length frames - 1) * N
       \<and> (\<forall>i < length frames.
            written (synthesize I model (int N) frames s) ! (i * (N + 1)) = frames ! i)
       \<and> (\<forall>i < length frames - 1. \<forall>k. 1 \<le> k \<and> k \<le> N \<longrightarrow>
            written (synthesize I model (int N) frames s) ! (i * (N + 1) + k)
              = I model (frames ! i) (frames ! (i + 1)) (of_nat k / of_nat (N + 1)))"
proof -
  define B where "B = pair_frames I model (int N) frames"
  define m where "m = length frames - 1"
  define W where "W = written (synthesize I model (int N) frames s)"
  have ne: "frames \<noteq> []" by (rule assms(1))
  have w: "W = concat (map B [0..<m]) @ [last frames]"
    using ne assms(2) by (simp add: W_def synthesize_eq B_def m_def del: One_nat_def)
  have lenB: "\<And>i. i < m \<Longrightarrow> length (B i) = N + 1"
    by (simp add: B_def length_pair_frames)
  have len: "length (concat (map B [0..<m])) = m * (N + 1)"
    using lenB by (rule length_concat_blocks)
  have n: "length frames = m + 1" using ne by (simp add: m_def)
  have c1: "length W = length frames + m * N"
    by (simp add: w len n)
  have c2: "W ! (i * (N + 1)) = frames ! i" if "i < length frames" for i
  proof (cases "i < m")
    case True
    have "i * (N + 1) < m * (N + 1)"
      using True by (intro mult_less_mono1) simp_all
    then have "W ! (i * (N + 1)) = concat (map B [0..<m]) ! (i * (N + 1) + 0)"
      unfolding w by (simp only: nth_append_left len add_0_right)
    also have "\<dots> = B i ! 0"
      using lenB True by (intro nth_concat_blocks) simp_all
    finally show ?thesis
      by (simp only: B_def pair_frames_0)
  next
    case False
    then have i: "i = m" using that n by simp
    have "W ! (m * (N + 1)) = last frames"
      unfolding w by (simp only: nth_append_length len [symmetric])
    then show ?thesis using ne by (simp add: i last_conv_nth n)
  qed
  have c3: "W ! (i * (N + 1) + k)
              = I model (frames ! i) (frames ! (i + 1)) (of_nat k / of_nat (N + 1))"
    if "i < m" "1 \<le> k" "k \<le> N" for i k
  proof -
    have "i * (N + 1) + k < i * (N + 1) + (N + 1)" using that by simp
    also have "\<dots> = Suc i * (N + 1)" by simp
    also have "\<dots> \<le> m * (N + 1)" using that(1) by (intro mult_le_mono1) simp
    finally have lt: "i * (N + 1) + k < m * (N + 1)" .
    then have "W ! (i * (N + 1) + k) = concat (map B [0..<m]) ! (i * (N + 1) + k)"
      unfolding w by (simp only: nth_append_left len)
    also have "\<dots> = B i ! k"
      using lenB that by (intro nth_concat_blocks) simp_all
    finally show ?thesis
      using that by (simp only: B_def pair_frames_k)
  qed
  show ?thesis
    using c1 c2 c3 unfolding W_def m_def [symmetric] by blast
qed

theorem frame_count_and_positions_witness:
  "length (written (synthesize blend () (int 2) [10, 40, 100] start)) = 7
   \<and> written (synthesize blend () (int 2) [10, 40, 100] start) ! 3 = 40
   \<and> written (synthesize blend () (int 2) [10, 40, 100] start) ! 4 = 60"
proof -
  let ?F = "[10, 40, 100 :: rat]"
  let ?W = "written (synthesize blend () (int 2) ?F start)"
  have h: "?F \<noteq> []" "written start = []" by (simp_all add: start_def)
  note t = frame_count_and_positions [OF h, of blend "()" 2]
  from t have "length ?W = length ?F + (length ?F - 1) * 2"
    by (rule conjunct1)
  then have a: "length ?W = 7" by simp
  from t have "\<forall>i < length ?F. ?W ! (i * (2 + 1)) = ?F ! i"
    by (rule conjunct2 [THEN conjunct1])
  then have "1 < length ?F \<longrightarrow> ?W ! (1 * (2 + 1)) = ?F ! 1"
    by (rule spec)
  then have b: "?W ! 3 = 40" by simp
  from t have "\<forall>i < length ?F - 1. \<forall>k. 1 \<le> k \<and> k \<le> 2 \<longrightarrow>
      ?W ! (i * (2 + 1) + k) = blend () (?F ! i) (?F ! (i + 1)) (of_nat k / of_nat (2 + 1))"
    by (rule conjunct2 [THEN conjunct2])
  from this [rule_format, of 1 1]
  have "?W ! (1 * (2 + 1) + 1) = blend () (?F ! 1) (?F ! (1 + 1)) (of_nat 1 / of_nat (2 + 1))"
    by simp
  then have c: "?W ! 4 = 60" by (simp add: blend_def)
  show ?thesis using a b c by (intro conjI)
qed

text \<open>The number of frames of a run of \<open>main\<close> in which line 88 computes the count \<open>n\<close>.\<close>

lemma frame_count_main:
  assumes "load_model fresh file = Inr model" and "isOpened cap"
    and "factor target (cap_fps cap) = Inr f" and "interp_count f = Inr n"
    and "cap_frames cap \<noteq> []"
  shows "length (written (main I fresh file cap target))
           = length (cap_frames cap) + (length (cap_frames cap) - 1) * nat n"
proof -
  define m where "m = length (cap_frames cap) - 1"
  have n: "length (cap_frames cap) = m + 1" using assms(5) by (simp add: m_def)
  have l: "length (concat (map (pair_frames I model n (cap_frames cap)) [0..<m])) = m * (nat n + 1)"
    by (rule length_concat_blocks) (simp add: length_pair_frames)
  have "length (written (main I fresh file cap target)) = m * (nat n + 1) + 1"
    using assms(5)
    by (simp add: main_run [OF assms(1-4)] synthesize_eq l m_def [symmetric] del: One_nat_def)
  then show ?thesis by (simp add: n)
qed

subsection \<open>One count for every pair\<close>

lemma pair_frames_fun:
  "pair_frames I m n frames
     = (\<lambda>i. frames ! i #
             map (\<lambda>k. I m (frames ! i) (frames ! (i + 1)) (of_int k / of_int (n + 1))) [1..n])"
  by (rule ext) (simp add: pair_frames_def time_positions_def comp_def)

lemma count_5_2: "py_round (5 / 2) = 2"
  using py_round_eqI [of "5 / 2" 2] by simp

text \<open>
  C3. For a video that opened with at least one frame, a checkpoint that loaded and a
  finite quotient \<open>q\<close> of \<open>target_fps / source_fps\<close> at line 68: the factor is \<open>q\<close>, or 1
  when \<open>q \<le> 1\<close>; the count \<open>n\<close> of line 88 is such that \<open>n + 1\<close> is the integer nearest to
  the factor, the even one on a tie; the output is, for every pair \<open>(i, i + 1)\<close> in order,
  the frame \<open>i\<close> followed by the synthetic frames for \<open>k = 1..n\<close> with this one \<open>n\<close>, then
  the last frame: every pair receives the same number of synthetic frames at the same
  time positions. That number is also the rounded quotient before the clamp, less 1, or
  0 when that is negative.
\<close>

theorem uniform_interp_count:
  assumes "load_model fresh file = Inr model" and "isOpened cap" and "cap_frames cap \<noteq> []"
    and "float_div target (cap_fps cap) = Inr (Finite q)"
  shows "(let f = (if q \<le> 1 then 1 else q); n = py_round f - 1; frames = cap_frames cap
          in factor target (cap_fps cap) = Inr (Finite f)
             \<and> \<bar>f - of_int (n + 1)\<bar> \<le> 1 / 2
             \<and> (\<bar>f - of_int (n + 1)\<bar> = 1 / 2 \<longrightarrow> even (n + 1))
             \<and> written (main I fresh file cap target)
                 = concat (map (\<lambda>i. frames ! i #
                                   map (\<lambda>k. I model (frames ! i) (frames ! (i + 1))
                                              (of_int k / of_int (n + 1))) [1..n])
                            [0..<length frames - 1]) @ [last frames]
             \<and> raised (main I fresh file cap target) = None
             \<and> length [1..n] = nat (py_round q - 1))"
proof -
  define f where "f = (if q \<le> 1 then 1 else q)"
  define n where "n = py_round f - 1"
  have fa: "factor target (cap_fps cap) = Inr (Finite f)"
    using assms(4) by (simp add: factor_def le_one_def f_def)
  have ic: "interp_count (Finite f) = Inr n"
    by (simp add: interp_count_def n_def)
  have near: "\<bar>f - of_int (n + 1)\<bar> \<le> 1 / 2"
    using py_round_nearest [of f] by (simp add: n_def)
  have tie: "\<bar>f - of_int (n + 1)\<bar> = 1 / 2 \<longrightarrow> even (n + 1)"
    using py_round_tie_even [of f] by (simp add: n_def)
  have b: "nat n = nat (py_round q - 1)"
  proof (cases "q \<le> 1")
    case True
    then have "q \<le> of_int 1" by simp
    then have "py_round q \<le> 1" by (rule py_round_le)
    then show ?thesis using True by (simp add: n_def f_def py_round_1)
  next
    case False
    then show ?thesis by (simp add: n_def f_def)
  qed
  have c: "written (main I fresh file cap target)
        = concat (map (pair_frames I model n (cap_frames cap))
             [0..<length (cap_frames cap) - 1]) @ [last (cap_frames cap)]"
    "raised (main I fresh file cap target) = None"
    using assms(3) by (simp_all add: main_run [OF assms(1,2) fa ic] synthesize_eq del: One_nat_def)
  show ?thesis
    unfolding Let_def f_def [symmetric] n_def [symmetric] c pair_frames_fun
    using fa near tie b by simp
qed

theorem uniform_interp_count_witness:
  "written (main blend fresh_model (Some weights) (clip (Finite d23_98) [10, 40, 100])
      (Finite d59_95)) = [10, 25, 40, 70, 100]"
proof -
  let ?C = "clip (Finite d23_98) [10, 40, 100]"
  have c: "isOpened ?C" "cap_frames ?C \<noteq> []" "cap_fps ?C = Finite d23_98"
    "cap_frames ?C = [10, 40, 100]"
    by (simp_all add: clip_def)
  have d: "float_div (Finite d59_95) (cap_fps ?C) = Inr (Finite (5 / 2))"
    by (simp add: c div_59_95)
  have u: "[1..1::int] = [1]" by code_simp
  have v: "[0..<2] = [0, 1]" by code_simp
  show ?thesis
    using uniform_interp_count [OF load_weights c(1,2) d, of blend]
    by (simp add: Let_def count_5_2 c u v blend_def)
qed

section \<open>Properties of the checkpoint loading\<close>

lemma map_of_flat:
  "map_of (map (\<lambda>(k, v). (k, Tensor v)) sd) k = map_option Tensor (map_of sd k)"
  by (induction sd) auto

lemma load_param_flat:
  "load_param (map (\<lambda>(k, v). (k, Tensor v)) sd) p
     = (fst p, case map_of sd (fst p) of None \<Rightarrow> snd p | Some w \<Rightarrow> w)"
  by (cases "map_of sd (fst p)") (simp_all add: load_param_def map_of_flat)

lemma load_state_dict_flat:
  "load_state_dict fresh (flat_checkpoint sd) False
     = Inr (map (\<lambda>p. (fst p, case map_of sd (fst p) of None \<Rightarrow> snd p | Some w \<Rightarrow> w)) fresh)"
proof -
  have "\<not> list_ex (\<lambda>p. case map_of (map (\<lambda>(k, v). (k, Tensor v)) sd) (fst p) of
                          Some (Dict _) \<Rightarrow> True | _ \<Rightarrow> False) fresh"
    by (auto simp: list_ex_iff map_of_flat split: option.splits pyobj.splits)
  then show ?thesis
    by (simp add: load_state_dict_def flat_checkpoint_def load_param_flat)
qed

text \<open>
  C6. A state dict \<open>sd\<close> of parameter names (none of them the key \<open>state_dict\<close> itself)
  loads from its flat form and from any dict that wraps the flat form under the key
  \<open>state_dict\<close>, with the same result and without failure, whatever names \<open>sd\<close> and the
  model have: a parameter of the model takes the stored value when \<open>sd\<close> has its name
  and keeps its own value otherwise; names of \<open>sd\<close> unknown to the model are dropped.
\<close>

theorem load_model_both_forms:
  assumes "map_of sd ''state_dict'' = None"
    and "map_of outer ''state_dict'' = Some (flat_checkpoint sd)"
  shows "load_model fresh (Some (flat_checkpoint sd))
           = Inr (map (\<lambda>p. (fst p, case map_of sd (fst p) of None \<Rightarrow> snd p | Some w \<Rightarrow> w)) fresh)
       \<and> load_model fresh (Some (Dict outer)) = load_model fresh (Some (flat_checkpoint sd))"
proof -
  have "load_model fresh (Some (flat_checkpoint sd)) = load_state_dict fresh (flat_checkpoint sd) False"
    using assms(1) by (simp add: load_model_def flat_checkpoint_def map_of_flat)
  moreover have "load_model fresh (Some (Dict outer)) = load_state_dict fresh (flat_checkpoint sd) False"
    using assms(2) by (simp add: load_model_def)
  ultimately show ?thesis by (simp add: load_state_dict_flat)
qed

theorem load_model_both_forms_witness:
  "load_model fresh_model (Some (flat_checkpoint stored))
      = Inr [(''encoder.weight'', 7), (''decoder.bias'', 1)]
   \<and> load_model fresh_model (Some (Dict [(''epoch'', Tensor 5), (''state_dict'', flat_checkpoint stored)]))
      = Inr [(''encoder.weight'', 7), (''decoder.bias'', 1)]"
  using load_model_both_forms [of stored "[(''epoch'', Tensor 5), (''state_dict'', flat_checkpoint stored)]" fresh_model]
  by (simp add: stored_def fresh_model_def)

text \<open>
  For contrast: strict loading of the same state dict fails on the unknown name, and a
  dict whose key \<open>state_dict\<close> holds a tensor is taken for the wrapped form and fails.
\<close>

lemma strict_rejects_unknown:
  "load_state_dict fresh_model (flat_checkpoint stored) True = Inl RuntimeError"
  by (simp add: load_state_dict_def flat_checkpoint_def stored_def fresh_model_def contains_key_def)

lemma tensor_under_state_dict:
  "load_model fresh_model (Some (flat_checkpoint [(''state_dict'', 7)])) = Inl TypeError"
  by (simp add: load_model_def load_state_dict_def flat_checkpoint_def)

section \<open>Properties of the fetcher\<close>

subsection \<open>The download\<close>

lemma foldl_write_chunk:
  "foldl write_chunk acc chunks = (fst acc @ concat chunks, snd acc + length (concat chunks))"
  by (induction chunks arbitrary: acc) (simp_all add: write_chunk_def)

lemma answer_facts:
  "\<not> raise_for_status answer" "headers answer ''content-length'' = None" "\<not> broken answer"
  "concat (body answer) = ''PKzip''"
  by (simp_all add: answer_def raise_for_status_def)

text \<open>
  C8. When the server answers without an error status, the response has no
  content-length header and the stream does not break, \<open>download_file\<close> returns
  normally: the progress bar is declared with the total 0, one request was made, and
  the local file holds exactly the bytes of the chunks of the body, in order (the count
  of the bar ends at their number).
\<close>

theorem download_without_content_length:
  assumes "http_get w url = Inr r" and "\<not> raise_for_status r"
    and "headers r ''content-length'' = None" and "\<not> broken r"
  shows "download_file w url filepath s
           = (Inr (), s\<lparr>requested := requested s @ [url],
                         files := (files s)(filepath \<mapsto> concat (body r)),
                         bars := bars s @ [(path_name filepath, 0, length (concat (body r)))]\<rparr>)"
  using assms
  by (simp add: download_file_def total_size_def foldl_write_chunk Let_def)

theorem download_without_content_length_witness:
  "download_file good_world dropbox_url [''repo'', ''checkpoints'', ''ifrnet_checkpoints.zip'']
     empty_disk
   = (Inr (), \<lparr>files = [[''repo'', ''checkpoints'', ''ifrnet_checkpoints.zip''] \<mapsto> ''PKzip''],
               requested = [dropbox_url],
               bars = [(''ifrnet_checkpoints.zip'', 0, 5)]\<rparr>)"
proof -
  have g: "http_get good_world dropbox_url = Inr answer"
    by (simp add: good_world_def)
  show ?thesis
    using download_without_content_length [OF g answer_facts(1-3),
        of "[''repo'', ''checkpoints'', ''ifrnet_checkpoints.zip'']" empty_disk]
    by (simp add: answer_facts(4) empty_disk_def path_name_def)
qed

subsection \<open>The handlers\<close>

lemma main_fetch_bad_zip:
  "main_try w s = (Inl BadZipFile, s2) \<Longrightarrow>
     main_fetch w s = (1, s2\<lparr>files := (files s2)(zip_path w := None)\<rparr>)"
  by (cases "files s2 (zip_path w)") (simp_all add: main_fetch_def fun_upd_idem)

lemma main_fetch_request:
  "main_try w s = (Inl RequestException, s1) \<Longrightarrow> main_fetch w s = (1, s1)"
  by (simp add: main_fetch_def)

lemma download_requested:
  "download_file w url p s = (r, s1) \<Longrightarrow> requested s1 = requested s @ [url]"
  by (auto simp: download_file_def Let_def split: sum.splits if_splits)

lemma zip_path_worlds:
  "zip_path good_world = [''repo'', ''checkpoints'', ''ifrnet_checkpoints.zip'']"
  "zip_path corrupt_world = [''repo'', ''checkpoints'', ''ifrnet_checkpoints.zip'']"
  "zip_path offline_world = [''repo'', ''checkpoints'', ''ifrnet_checkpoints.zip'']"
  "checkpoints_dir good_world = [''repo'', ''checkpoints'']"
  "checkpoints_dir corrupt_world = [''repo'', ''checkpoints'']"
  "checkpoints_dir offline_world = [''repo'', ''checkpoints'']"
  by (simp_all add: zip_path_def checkpoints_dir_def good_world_def corrupt_world_def
      offline_world_def)

lemma download_corrupt:
  "download_file corrupt_world dropbox_url (zip_path corrupt_world) empty_disk
     = (Inr (), \<lparr>files = [zip_path corrupt_world \<mapsto> ''PKzip''],
                 requested = [dropbox_url],
                 bars = [(''ifrnet_checkpoints.zip'', 0, 5)]\<rparr>)"
  by (simp add: download_file_def corrupt_world_def good_world_def answer_def
      raise_for_status_def total_size_def write_chunk_def empty_disk_def path_name_def
      zip_path_def checkpoints_dir_def Let_def)

lemma extract_corrupt:
  "extract_zip corrupt_world (zip_path corrupt_world) (checkpoints_dir corrupt_world)
     \<lparr>files = [zip_path corrupt_world \<mapsto> ''PKzip''], requested = [dropbox_url],
      bars = [(''ifrnet_checkpoints.zip'', 0, 5)]\<rparr>
     = (Inl BadZipFile,
        \<lparr>files = [zip_path corrupt_world \<mapsto> ''PKzip''], requested = [dropbox_url],
         bars = [(''ifrnet_checkpoints.zip'', 0, 5)]\<rparr>)"
  by (simp add: extract_zip_def corrupt_world_def)

lemma download_offline:
  "download_file offline_world dropbox_url (zip_path offline_world) empty_disk
     = (Inl RequestException, \<lparr>files = Map.empty, requested = [dropbox_url], bars = []\<rparr>)"
  by (simp add: download_file_def offline_world_def empty_disk_def Let_def)

text \<open>
  The two failures that the handlers of lines 115-122 name. With no regular file in the
  way of the checkpoints directory: when the download succeeds and the extraction then
  raises \<open>BadZipFile\<close>, the fetcher ends with exit status 1 and the archive file is gone
  from the disk, everything else as the extraction left it; when the download raises
  \<open>RequestException\<close> (on connecting, on an error status or in the middle of the stream),
  the fetcher ends with exit status 1 after that one request.
\<close>

lemma handled_failures:
  assumes "files s (checkpoints_dir w) = None"
  shows "(\<forall>s1 s2. download_file w dropbox_url (zip_path w) s = (Inr (), s1)
              \<and> extract_zip w (zip_path w) (checkpoints_dir w) s1 = (Inl BadZipFile, s2)
            \<longrightarrow> main_fetch w s = (1, s2\<lparr>files := (files s2)(zip_path w := None)\<rparr>))
       \<and> (\<forall>s1. download_file w dropbox_url (zip_path w) s = (Inl RequestException, s1)
            \<longrightarrow> main_fetch w s = (1, s1) \<and> requested s1 = requested s @ [dropbox_url])"
proof (intro conjI allI impI)
  fix s1 s2
  assume "download_file w dropbox_url (zip_path w) s = (Inr (), s1)
          \<and> extract_zip w (zip_path w) (checkpoints_dir w) s1 = (Inl BadZipFile, s2)"
  then have "main_try w s = (Inl BadZipFile, s2)"
    using assms by (simp add: main_try_def)
  then show "main_fetch w s = (1, s2\<lparr>files := (files s2)(zip_path w := None)\<rparr>)"
    by (rule main_fetch_bad_zip)
next
  fix s1
  assume d: "download_file w dropbox_url (zip_path w) s = (Inl RequestException, s1)"
  then have "main_try w s = (Inl RequestException, s1)"
    using assms by (simp add: main_try_def)
  then show "main_fetch w s = (1, s1)"
    by (rule main_fetch_request)
  show "requested s1 = requested s @ [dropbox_url]"
    using d by (rule download_requested)
qed

lemma handled_failures_examples:
  "main_fetch corrupt_world empty_disk
     = (1, \<lparr>files = Map.empty, requested = [dropbox_url],
            bars = [(''ifrnet_checkpoints.zip'', 0, 5)]\<rparr>)
   \<and> main_fetch offline_world empty_disk
     = (1, \<lparr>files = Map.empty, requested = [dropbox_url], bars = []\<rparr>)"
proof -
  have c: "files empty_disk (checkpoints_dir corrupt_world) = None"
    and d: "files empty_disk (checkpoints_dir offline_world) = None"
    by (simp_all add: empty_disk_def)
  have "main_fetch corrupt_world empty_disk
     = (1, \<lparr>files = [zip_path corrupt_world \<mapsto> ''PKzip''], requested = [dropbox_url],
             bars = [(''ifrnet_checkpoints.zip'', 0, 5)]\<rparr>
            \<lparr>files := [zip_path corrupt_world \<mapsto> ''PKzip''](zip_path corrupt_world := None)\<rparr>)"
    using handled_failures [OF c] download_corrupt extract_corrupt by simp
  then have a: "main_fetch corrupt_world empty_disk
     = (1, \<lparr>files = Map.empty, requested = [dropbox_url],
            bars = [(''ifrnet_checkpoints.zip'', 0, 5)]\<rparr>)"
    by simp
  have b: "main_fetch offline_world empty_disk
     = (1, \<lparr>files = Map.empty, requested = [dropbox_url], bars = []\<rparr>)"
    using handled_failures [OF d] download_offline by simp
  show ?thesis using a b by (intro conjI)
qed

subsection \<open>Damage that the decompressor reports\<close>

lemma main_fetch_other:
  assumes "main_try w s = (Inl e, s1)" and "e \<noteq> RequestException" and "e \<noteq> BadZipFile"
  shows "main_fetch w s = (1, s1)"
  using assms by (cases e) (simp_all add: main_fetch_def)

lemma download_damaged:
  "download_file damaged_world dropbox_url (zip_path damaged_world) empty_disk
     = (Inr (), \<lparr>files = [zip_path damaged_world \<mapsto> ''PKzip''],
                 requested = [dropbox_url],
                 bars = [(''ifrnet_checkpoints.zip'', 0, 5)]\<rparr>)"
  by (simp add: download_file_def damaged_world_def good_world_def answer_def
      raise_for_status_def total_size_def write_chunk_def empty_disk_def path_name_def
      zip_path_def checkpoints_dir_def Let_def)

lemma main_try_damaged:
  "main_try damaged_world empty_disk
     = (Inl ZlibError,
        \<lparr>files = [zip_path damaged_world \<mapsto> ''PKzip'',
                  [''repo'', ''checkpoints'', ''IFRNet'', ''a.pth''] \<mapsto> []],
         requested = [dropbox_url],
         bars = [(''ifrnet_checkpoints.zip'', 0, 5), (''Extracting'', 1, 0)]\<rparr>)"
proof -
  have e: "extract_zip damaged_world (zip_path damaged_world) (checkpoints_dir damaged_world)
      \<lparr>files = [zip_path damaged_world \<mapsto> ''PKzip''], requested = [dropbox_url],
       bars = [(''ifrnet_checkpoints.zip'', 0, 5)]\<rparr>
     = (Inl ZlibError,
        \<lparr>files = [zip_path damaged_world \<mapsto> ''PKzip'',
                  [''repo'', ''checkpoints'', ''IFRNet'', ''a.pth''] \<mapsto> []],
         requested = [dropbox_url],
         bars = [(''ifrnet_checkpoints.zip'', 0, 5), (''Extracting'', 1, 0)]\<rparr>)"
    by (simp add: extract_zip_def damaged_world_def good_world_def checkpoints_dir_def Let_def)
  have c: "files empty_disk (checkpoints_dir damaged_world) = None"
    by (simp add: empty_disk_def)
  show ?thesis
    by (simp add: main_try_def c download_damaged e)
qed

text \<open>
  C7. The claim: when the extraction fails because the archive is corrupt, the archive
  file is deleted and the exit status is 1. Damage inside the compressed data of a
  member makes the decompressor raise \<open>zlib.error\<close>, which is no \<open>BadZipFile\<close>: the run
  falls to the handler of lines 123-125 and ends with exit status 1, the archive still
  on the disk beside the empty file of the member.
\<close>

theorem damaged_member_keeps_archive:
  "main_fetch damaged_world empty_disk
     = (1, \<lparr>files = [[''repo'', ''checkpoints'', ''ifrnet_checkpoints.zip''] \<mapsto> ''PKzip'',
                    [''repo'', ''checkpoints'', ''IFRNet'', ''a.pth''] \<mapsto> []],
            requested = [dropbox_url],
            bars = [(''ifrnet_checkpoints.zip'', 0, 5), (''Extracting'', 1, 0)]\<rparr>)"
  using main_fetch_other [OF main_try_damaged]
  by (simp add: zip_path_def checkpoints_dir_def damaged_world_def good_world_def)

text \<open>The run without a failure, for comparison.\<close>

lemma main_fetch_good:
  "main_fetch good_world empty_disk
     = (0, \<lparr>files = [[''repo'', ''checkpoints'', ''IFRNet'', ''a.pth''] \<mapsto> ''w''],
            requested = [dropbox_url],
            bars = [(''ifrnet_checkpoints.zip'', 0, 5), (''Extracting'', 1, 1)]\<rparr>)"
  by (simp add: main_fetch_def main_try_def download_file_def extract_zip_def unlink_def
      good_world_def answer_def raise_for_status_def total_size_def write_chunk_def
      empty_disk_def path_name_def zip_path_def checkpoints_dir_def Let_def fun_upd_twist)

end
